theory Spec2Isabelle
  imports Main "HOL-Library.Word"
begin

section \<open>Values: ByteView\<close>

text \<open>
  Go's \<^verbatim>\<open>[]byte\<close> and \<^verbatim>\<open>string\<close> are both sequences of bytes, and \<^verbatim>\<open>len\<close> counts
  bytes; HOL's \<open>char\<close> is a byte, so both are \<open>char list\<close>.
  \<^verbatim>\<open>ByteView\<close> is the only implementation of the LRU's \<^verbatim>\<open>Lengthable\<close> interface in the
  repository, so the LRU below stores \<open>ByteView\<close> values.
\<close>

type_synonym bytes = "char list"

datatype ByteView = ByteView (b: bytes)

definition Len :: "ByteView \<Rightarrow> int" where
  "Len v = int (length (b v))"

definition cloneBytes :: "bytes \<Rightarrow> bytes" where
  "cloneBytes bs = bs"


section \<open>lru: the capacity-bounded recency list\<close>

text \<open>
  \<^verbatim>\<open>lru.Cache\<close>: \<open>capacity\<close> and \<open>length_used\<close> (the source's field \<^verbatim>\<open>length\<close>) are
  \<^verbatim>\<open>int64\<close>; they are sums of lengths of objects held in memory, far from the 64-bit
  range, and are modelled as unbounded integers.
  \<open>doublyLinkedList\<close> is the \<^verbatim>\<open>container/list\<close> list, front (most recently used) first.
  The source's index \<^verbatim>\<open>hashmap\<close> maps a key to its list element; \<^verbatim>\<open>Add\<close> and \<^verbatim>\<open>Remove\<close>
  change the index and the list together, so the index is read off the list.
  \<open>callback\<close> is \<open>None\<close> for a nil \<^verbatim>\<open>OnEliminated\<close>, and otherwise holds the calls made to
  the callback so far, oldest first.
\<close>

record Value =
  entry_key :: string
  entry_value :: ByteView

record Cache =
  capacity :: int
  length_used :: int
  doublyLinkedList :: "Value list"
  callback :: "(string \<times> ByteView) list option"

definition lru_New :: "int \<Rightarrow> (string \<times> ByteView) list option \<Rightarrow> Cache" where
  "lru_New maxBytes cb =
     \<lparr>capacity = maxBytes, length_used = 0, doublyLinkedList = [], callback = cb\<rparr>"

definition hashmap :: "Cache \<Rightarrow> string \<Rightarrow> Value option" where
  "hashmap c k = find (\<lambda>e. entry_key e = k) (doublyLinkedList c)"

text \<open>\<^verbatim>\<open>Cache.Get\<close>: on a hit the element moves to the front.\<close>

definition Cache_Get :: "Cache \<Rightarrow> string \<Rightarrow> (ByteView option \<times> bool) \<times> Cache" where
  "Cache_Get c k =
     (case hashmap c k of
        Some elem \<Rightarrow>
          ((Some (entry_value elem), True),
           c\<lparr>doublyLinkedList := elem # remove1 elem (doublyLinkedList c)\<rparr>)
      | None \<Rightarrow> ((None, False), c))"

text \<open>
  \<^verbatim>\<open>Cache.Remove\<close>: drops the back element, if there is one; on an empty list it does
  nothing.
\<close>

definition Cache_Remove :: "Cache \<Rightarrow> Cache" where
  "Cache_Remove c =
     (case rev (doublyLinkedList c) of
        [] \<Rightarrow> c
      | tailElem # _ \<Rightarrow>
          c\<lparr>doublyLinkedList := butlast (doublyLinkedList c),
            length_used := length_used c
               - (int (length (entry_key tailElem)) + Len (entry_value tailElem)),
            callback := map_option
               (\<lambda>calls. calls @ [(entry_key tailElem, entry_value tailElem)]) (callback c)\<rparr>)"

text \<open>
  The loop at the head of \<^verbatim>\<open>Cache.Add\<close>:
  \<^verbatim>\<open>for c.capacity != 0 && kvSize+c.length > c.capacity { c.Remove() }\<close>.
  Nothing bounds its iterations, so a run that never leaves it is the value \<open>None\<close>.
\<close>

partial_function (option) evict :: "int \<Rightarrow> Cache \<Rightarrow> Cache option" where
  "evict kvSize c =
     (if capacity c \<noteq> 0 \<and> kvSize + length_used c > capacity c
      then evict kvSize (Cache_Remove c)
      else Some c)"

declare evict.simps [code]

text \<open>
  \<^verbatim>\<open>Cache.Add\<close>: after the loop, an element still indexed under the key moves to the
  front, \<^verbatim>\<open>c.length += int64(oldEntry.value.Len()) - int64(value.Len())\<close>, and its value is
  replaced; otherwise a new element is pushed to the front and \<^verbatim>\<open>c.length += kvSize\<close>.
\<close>

definition Cache_Add :: "Cache \<Rightarrow> string \<Rightarrow> ByteView \<Rightarrow> Cache option" where
  "Cache_Add c0 k v =
     (let kvSize = int (length k) + Len v in
      case evict kvSize c0 of
        None \<Rightarrow> None
      | Some c \<Rightarrow>
          (case hashmap c k of
             Some oldEntry \<Rightarrow>
               Some (c\<lparr>doublyLinkedList :=
                          oldEntry\<lparr>entry_value := v\<rparr> # remove1 oldEntry (doublyLinkedList c),
                        length_used := length_used c + (Len (entry_value oldEntry) - Len v)\<rparr>)
           | None \<Rightarrow>
               Some (c\<lparr>doublyLinkedList :=
                          \<lparr>entry_key = k, entry_value = v\<rparr> # doublyLinkedList c,
                        length_used := length_used c + kvSize\<rparr>)))"

text \<open>
  The size the entries of a cache really have: key length plus value length, summed over
  the list. This is the measure the capacity bound is about; the code tracks it in
  \<open>length_used\<close>.
\<close>

definition entries_size :: "Cache \<Rightarrow> int" where
  "entries_size c =
     sum_list (map (\<lambda>e. int (length (entry_key e)) + Len (entry_value e)) (doublyLinkedList c))"

text \<open>
  The state in which the loop of \<^verbatim>\<open>Add\<close> cannot progress: its condition holds and the
  list has nothing left to remove.
\<close>

definition stuck :: "int \<Rightarrow> Cache \<Rightarrow> bool" where
  "stuck kvSize c \<longleftrightarrow>
     doublyLinkedList c = [] \<and> capacity c \<noteq> 0 \<and> kvSize + length_used c > capacity c"

section \<open>consistenthash: the ring\<close>

text \<open>
  \<^verbatim>\<open>HashFunc\<close> maps bytes to a \<^verbatim>\<open>uint32\<close>. The ring stores \<^verbatim>\<open>int(hash)\<close>: on the 64-bit
  platforms the code is written for, \<^verbatim>\<open>int\<close> holds every \<^verbatim>\<open>uint32\<close>, so the conversion is
  \<open>uint\<close>. \<open>hashMap\<close> is the Go map from a virtual node's hash to the peer that owns it.
\<close>

type_synonym HashFunc = "bytes \<Rightarrow> 32 word"

record Consistentency =
  hash :: HashFunc
  replicas :: int
  ring :: "int list"
  hashMap :: "int \<Rightarrow> string option"

text \<open>
  \<^verbatim>\<open>consistenthash.New\<close>: a nil \<^verbatim>\<open>fn\<close> selects \<^verbatim>\<open>crc32.ChecksumIEEE\<close>, a function of Go's
  standard library, which is a parameter here.
\<close>

definition consistenthash_New :: "HashFunc \<Rightarrow> int \<Rightarrow> HashFunc option \<Rightarrow> Consistentency" where
  "consistenthash_New ChecksumIEEE n fn =
     \<lparr>hash = (case fn of None \<Rightarrow> ChecksumIEEE | Some f \<Rightarrow> f),
      replicas = n, ring = [], hashMap = Map.empty\<rparr>"

text \<open>\<^verbatim>\<open>strconv.Itoa\<close> on the replica indices, which are never negative.\<close>

fun Itoa :: "nat \<Rightarrow> string" where
  "Itoa n = (if n < 10 then [char_of (48 + n)] else Itoa (n div 10) @ [char_of (48 + n mod 10)])"

declare Itoa.simps [simp del]

text \<open>
  \<^verbatim>\<open>Consistentency.Register\<close>: for each peer, for \<open>i\<close> from 0 below \<open>replicas\<close>, the hash of
  \<^verbatim>\<open>strconv.Itoa(i) + peerName\<close> is appended to the ring and entered in \<open>hashMap\<close>
  (\<open>addReplica\<close> is the body of the inner loop, \<open>addPeer\<close> the inner loop); then the ring
  is sorted.
\<close>

definition addReplica :: "string \<Rightarrow> Consistentency \<Rightarrow> nat \<Rightarrow> Consistentency" where
  "addReplica peerName c i =
     (let hashValue = uint (hash c (Itoa i @ peerName))
      in c\<lparr>ring := ring c @ [hashValue], hashMap := (hashMap c)(hashValue \<mapsto> peerName)\<rparr>)"

definition addPeer :: "Consistentency \<Rightarrow> string \<Rightarrow> Consistentency" where
  "addPeer c peerName = foldl (addReplica peerName) c [0..<nat (replicas c)]"

definition Register :: "Consistentency \<Rightarrow> string list \<Rightarrow> Consistentency" where
  "Register c peersName = (let c' = foldl addPeer c peersName in c'\<lparr>ring := sort (ring c')\<rparr>)"

text \<open>
  \<^verbatim>\<open>sort.Search(n, f)\<close> of Go's standard library, as it is written there: a binary search
  with \<^verbatim>\<open>i, j := 0, n\<close> that, while \<^verbatim>\<open>i < j\<close>, takes \<^verbatim>\<open>h := int(uint(i+j) >> 1)\<close> and
  continues with \<^verbatim>\<open>i = h + 1\<close> if \<^verbatim>\<open>!f(h)\<close> and with \<^verbatim>\<open>j = h\<close> otherwise; it returns \<open>i\<close>.
\<close>

function Search_loop :: "(nat \<Rightarrow> bool) \<Rightarrow> nat \<Rightarrow> nat \<Rightarrow> nat" where
  "Search_loop f i j =
     (if i < j
      then (let h = (i + j) div 2
            in if \<not> f h then Search_loop f (h + 1) j else Search_loop f i h)
      else i)"
  by pat_completeness auto
termination
  by (relation "measure (\<lambda>(f, i, j). j - i)") auto

declare Search_loop.simps [simp del]

definition Search :: "nat \<Rightarrow> (nat \<Rightarrow> bool) \<Rightarrow> nat" where
  "Search n f = Search_loop f 0 n"

text \<open>\<^verbatim>\<open>c.hashMap[h]\<close>: a Go map read, the empty string when the key is missing.\<close>

definition hashMap_lookup :: "Consistentency \<Rightarrow> int \<Rightarrow> string" where
  "hashMap_lookup c h = (case hashMap c h of None \<Rightarrow> '''' | Some peer \<Rightarrow> peer)"

text \<open>
  \<^verbatim>\<open>Consistentency.Get\<close>. The index \<^verbatim>\<open>idx % len(c.ring)\<close> is below the length of the
  non-empty ring, and \<open>Search\<close> calls its predicate below that length only, so every read
  of the ring is in range.
\<close>

definition Consistentency_Get :: "Consistentency \<Rightarrow> string \<Rightarrow> string" where
  "Consistentency_Get c k =
     (if length (ring c) = 0 then ''''
      else (let hashValue = uint (hash c k);
                idx = Search (length (ring c)) (\<lambda>i. ring c ! i \<ge> hashValue)
            in hashMap_lookup c (ring c ! (idx mod length (ring c)))))"

section \<open>Errors and outcomes\<close>

text \<open>
  A Go \<^verbatim>\<open>error\<close> made by \<^verbatim>\<open>fmt.Errorf\<close> is its message; a function returning
  \<^verbatim>\<open>(value, error)\<close> returns a pair whose second component is \<open>None\<close> for a nil error.
  A call either returns, panics, or never returns.
\<close>

datatype error = Errorf string

datatype 'a outcome = Returns 'a | Panics string | Diverges


section \<open>server: the peer picker\<close>

text \<open>
  \<^verbatim>\<open>client\<close> has the one field \<^verbatim>\<open>name\<close> (\<open>client_name\<close> here, as a group has a field of
  the same name).
\<close>

record client =
  client_name :: string

definition NewClient :: "string \<Rightarrow> client" where
  "NewClient peerAddr = \<lparr>client_name = peerAddr\<rparr>"

definition defaultAddr :: string where
  "defaultAddr = ''127.0.0.1:6324''"

definition defaultReplicas :: int where
  "defaultReplicas = 50"

text \<open>
  \<^verbatim>\<open>server\<close>: \<open>consHash\<close> is a pointer, nil until \<^verbatim>\<open>SetPeers\<close>; \<open>clients\<close> is a Go map, which
  reads the same nil or empty. The mutex and the stop channel concern other goroutines and
  are left out. \<^verbatim>\<open>utils.ValidPeerAddr\<close> rests on Go's \<^verbatim>\<open>net\<close> package and is a parameter.
\<close>

record server =
  addr :: string
  status :: bool
  consHash :: "Consistentency option"
  clients :: "string \<Rightarrow> client option"

definition NewServer :: "(string \<Rightarrow> bool) \<Rightarrow> string \<Rightarrow> server option \<times> error option" where
  "NewServer ValidPeerAddr a =
     (let a' = (if a = '''' then defaultAddr else a)
      in if \<not> ValidPeerAddr a'
         then (None, Some (Errorf (''invalid addr '' @ a' @ '', it should be x.x.x.x:port'')))
         else (Some \<lparr>addr = a', status = False, consHash = None, clients = Map.empty\<rparr>, None))"

text \<open>The loop of \<^verbatim>\<open>SetPeers\<close> that creates one client per peer address.\<close>

fun addClients :: "(string \<Rightarrow> bool) \<Rightarrow> server \<Rightarrow> string list \<Rightarrow> server outcome" where
  "addClients ValidPeerAddr s [] = Returns s"
| "addClients ValidPeerAddr s (peerAddr # rest) =
     (if \<not> ValidPeerAddr peerAddr
      then Panics (''[peer '' @ peerAddr @ ''] invalid address format, it should be x.x.x.x:port'')
      else addClients ValidPeerAddr
             (s\<lparr>clients := (clients s)(peerAddr \<mapsto> NewClient (''gocache/'' @ peerAddr))\<rparr>) rest)"

definition SetPeers ::
  "HashFunc \<Rightarrow> (string \<Rightarrow> bool) \<Rightarrow> server \<Rightarrow> string list \<Rightarrow> server outcome" where
  "SetPeers ChecksumIEEE ValidPeerAddr s peersAddr =
     addClients ValidPeerAddr
       (s\<lparr>consHash :=
            Some (Register (consistenthash_New ChecksumIEEE defaultReplicas None) peersAddr),
          clients := Map.empty\<rparr>)
       peersAddr"

text \<open>
  Modelled from the spec: \<^verbatim>\<open>server.Pick\<close> calls \<^verbatim>\<open>s.consHash.GetPeer(key)\<close>, a method the
  sources do not define. The spec gives the ring one lookup, Locate, which "returns an
  empty/absent result when the ring has no entries"; that lookup is \<^verbatim>\<open>Consistentency.Get\<close>.
\<close>

definition GetPeer :: "Consistentency \<Rightarrow> string \<Rightarrow> string" where
  "GetPeer c k = Consistentency_Get c k"

text \<open>
  \<^verbatim>\<open>server.Pick\<close>. The fetcher returned is a \<^verbatim>\<open>*client\<close>, nil when \<^verbatim>\<open>s.clients\<close> has no
  entry for the address. Calling \<^verbatim>\<open>GetPeer\<close> through a nil \<^verbatim>\<open>consHash\<close> panics.
\<close>

definition server_Pick :: "server \<Rightarrow> string \<Rightarrow> (client option \<times> bool) outcome" where
  "server_Pick s k =
     (case consHash s of
        None \<Rightarrow> Panics ''invalid memory address or nil pointer dereference''
      | Some ch \<Rightarrow>
          (let peerAddr = GetPeer ch k
           in if peerAddr = addr s then Returns (None, False)
              else Returns (clients s peerAddr, True)))"

text \<open>
  \<^verbatim>\<open>server.Stop\<close> as \<^verbatim>\<open>src/server.go\<close> has it: the body is empty, so the server is
  left as it is. (Another variant of the server in the repository marks a running server
  stopped, after a send on its stop channel; the channel belongs to other goroutines.)
\<close>

definition Stop :: "server \<Rightarrow> server" where
  "Stop s = s"


section \<open>singleflight: coalescing calls by key\<close>

text \<open>
  A \<^verbatim>\<open>packet\<close> holds the WaitGroup counter and the stored result; \<^verbatim>\<open>val\<close> is an
  \<^verbatim>\<open>interface{}\<close>, nil or a value. A \<^verbatim>\<open>Flight\<close> is its map \<^verbatim>\<open>flight\<close>, nil until the first
  call; \<open>table\<close> reads it.
\<close>

record 'a packet =
  wg :: nat
  val :: "'a option"
  err :: "error option"

type_synonym 'a Flight = "(string \<Rightarrow> 'a packet option) option"

definition table :: "'a Flight \<Rightarrow> string \<Rightarrow> 'a packet option" where
  "table f = (case f of None \<Rightarrow> Map.empty | Some m \<Rightarrow> m)"

text \<open>
  \<^verbatim>\<open>Flight.Fly\<close> on one thread of control. The function \<open>fn\<close> acts on a state \<open>'s\<close> and may
  panic or not return. A caller that finds a record for the key waits on its WaitGroup:
  it returns the stored result if the counter is already 0, and otherwise waits for a
  \<^verbatim>\<open>Done\<close> that, with no other thread, never comes. Without a record the caller enters one,
  runs \<open>fn\<close>, stores the result, deletes the record and returns the result.
\<close>

definition Fly ::
  "'a Flight \<Rightarrow> string \<Rightarrow> ('s \<Rightarrow> (('a option \<times> error option) \<times> 's) outcome)
     \<Rightarrow> 's \<Rightarrow> (('a option \<times> error option) \<times> 'a Flight \<times> 's) outcome" where
  "Fly f k fn s =
     (let m = table f in
      case m k of
        Some p \<Rightarrow> (if wg p = 0 then Returns ((val p, err p), Some m, s) else Diverges)
      | None \<Rightarrow>
          (let m1 = m(k \<mapsto> \<lparr>wg = 1, val = None, err = None\<rparr>) in
           case fn s of
             Panics msg \<Rightarrow> Panics msg
           | Diverges \<Rightarrow> Diverges
           | Returns ((v, e), s') \<Rightarrow>
               (let m2 = m1(k \<mapsto> \<lparr>wg = 0, val = v, err = e\<rparr>)
                in Returns ((v, e), Some (m2(k := None)), s'))))"


section \<open>Group: the lookup flow\<close>

text \<open>
  The origin loader (\<^verbatim>\<open>Retriever.retrieve\<close>) and the remote fetch (\<^verbatim>\<open>(*client).Fetch\<close>, an
  etcd lookup and a gRPC call) act on the world outside the process, of type \<open>'w\<close>: each
  takes the world and returns its result with the world after the call. The remote fetch
  is a parameter \<open>Fetch\<close> of the functions below; its receiver may be a nil \<^verbatim>\<open>*client\<close>.
  \<^verbatim>\<open>server\<close> is the only \<^verbatim>\<open>Picker\<close> of the repository, and \<^verbatim>\<open>DestoryGroup\<close> asserts that type,
  so the field \<open>server\<close> of a group is a server or nil.
\<close>

type_synonym 'w Retriever = "string \<Rightarrow> 'w \<Rightarrow> (bytes \<times> error option) \<times> 'w"

type_synonym 'w Fetch =
  "client option \<Rightarrow> string \<Rightarrow> string \<Rightarrow> 'w \<Rightarrow> ((bytes \<times> error option) \<times> 'w) outcome"

record 'w Group =
  name :: string
  cache :: Cache
  retriever :: "'w Retriever"
  server :: "server option"
  flight :: "ByteView Flight"

text \<open>
  Modelled from the spec: the type \<^verbatim>\<open>cache\<close> behind \<^verbatim>\<open>g.cache\<close> (\<^verbatim>\<open>newCache\<close>, \<^verbatim>\<open>cache.get\<close>,
  \<^verbatim>\<open>cache.add\<close>) is not among the sources. By the spec a group "owns one BoundedLRU
  instance", \<^verbatim>\<open>Get\<close> "checks BoundedLRU", and a loaded value is inserted "into BoundedLRU
  (PopulateCache)"; so the three functions are the LRU's \<^verbatim>\<open>New\<close> (with no eviction
  callback), \<^verbatim>\<open>Get\<close> and \<^verbatim>\<open>Add\<close>, the first with the \<^verbatim>\<open>ByteView\<close> result type of its caller.
\<close>

definition newCache :: "int \<Rightarrow> Cache" where
  "newCache maxBytes = lru_New maxBytes None"

definition cache_get :: "Cache \<Rightarrow> string \<Rightarrow> (ByteView \<times> bool) \<times> Cache" where
  "cache_get c k =
     (case Cache_Get c k of
        ((Some v, ok), c') \<Rightarrow> ((v, ok), c')
      | ((None, ok), c') \<Rightarrow> ((ByteView [], False), c'))"

definition cache_add :: "Cache \<Rightarrow> string \<Rightarrow> ByteView \<Rightarrow> Cache option" where
  "cache_add c k v = Cache_Add c k v"

text \<open>
  The directory \<^verbatim>\<open>groups\<close> is a map from names to groups. \<^verbatim>\<open>NewGroup\<close> panics on a nil
  retriever and otherwise stores the new group under its name.
\<close>

definition NewGroup ::
  "string \<Rightarrow> int \<Rightarrow> 'w Retriever option \<Rightarrow> (string \<Rightarrow> 'w Group option)
     \<Rightarrow> ('w Group \<times> (string \<Rightarrow> 'w Group option)) outcome" where
  "NewGroup nm maxBytes r groups =
     (case r of
        None \<Rightarrow> Panics ''Retriver is nil.''
      | Some rf \<Rightarrow>
          (let g = \<lparr>name = nm, cache = newCache maxBytes, retriever = rf,
                    server = None, flight = None\<rparr>
           in Returns (g, groups(nm \<mapsto> g))))"

definition GetGroup :: "(string \<Rightarrow> 'w Group option) \<Rightarrow> string \<Rightarrow> 'w Group option" where
  "GetGroup groups nm = groups nm"

text \<open>
  \<^verbatim>\<open>DestoryGroup\<close>: for a registered group, \<^verbatim>\<open>server := g.server.(*server)\<close> panics when
  \<^verbatim>\<open>g.server\<close> is nil; otherwise \<^verbatim>\<open>Stop\<close> is called on it and the entry deleted. The result
  holds the directory and the server after the call.
\<close>

definition DestoryGroup ::
  "string \<Rightarrow> (string \<Rightarrow> 'w Group option)
     \<Rightarrow> ((string \<Rightarrow> 'w Group option) \<times> server option) outcome" where
  "DestoryGroup nm groups =
     (case GetGroup groups nm of
        None \<Rightarrow> Returns (groups, None)
      | Some g \<Rightarrow>
          (case server g of
             None \<Rightarrow> Panics ''interface conversion: gocache.Picker is nil, not *gocache.server''
           | Some srv \<Rightarrow> Returns (groups(nm := None), Some (Stop srv))))"

definition RegisterSvr :: "'w Group \<Rightarrow> server \<Rightarrow> 'w Group outcome" where
  "RegisterSvr g p =
     (if server g \<noteq> None then Panics ''group has been registered server''
      else Returns (g\<lparr>server := Some p\<rparr>))"

definition populateCache :: "Cache \<Rightarrow> string \<Rightarrow> ByteView \<Rightarrow> Cache option" where
  "populateCache c k v = cache_add c k v"

text \<open>
  \<^verbatim>\<open>Group.getLocally\<close>, on the cache and the world: the loader's error is returned with an
  empty \<^verbatim>\<open>ByteView\<close>; its bytes are cloned, added to the cache and returned.
\<close>

definition getLocally ::
  "'w Group \<Rightarrow> string \<Rightarrow> Cache \<times> 'w
     \<Rightarrow> ((ByteView \<times> error option) \<times> (Cache \<times> 'w)) outcome" where
  "getLocally g k s =
     (case s of (c, w) \<Rightarrow>
        (case retriever g k w of
           ((bs, Some e), w') \<Rightarrow> Returns ((ByteView [], Some e), (c, w'))
         | ((bs, None), w') \<Rightarrow>
             (let v = ByteView (cloneBytes bs) in
              case populateCache c k v of
                None \<Rightarrow> Diverges
              | Some c' \<Rightarrow> Returns ((v, None), (c', w')))))"

text \<open>
  The function that \<^verbatim>\<open>Group.load\<close> hands to \<^verbatim>\<open>Fly\<close>, in two parts. \<open>peerFetch\<close> is its
  block \<^verbatim>\<open>if g.server != nil { ... }\<close>: the result is \<open>Some view\<close> when the block returns
  from the function (the picker found a fetcher and the fetch had no error), and \<open>None\<close>
  when control leaves the block. \<open>load_fn\<close> is the whole function: it ends with
  \<^verbatim>\<open>return g.getLocally(key)\<close>. A \<^verbatim>\<open>ByteView\<close> returned as \<^verbatim>\<open>interface{}\<close> is not nil.
\<close>

definition peerFetch ::
  "'w Fetch \<Rightarrow> 'w Group \<Rightarrow> string \<Rightarrow> 'w \<Rightarrow> (ByteView option \<times> 'w) outcome" where
  "peerFetch Fetch g k w =
     (case server g of
        None \<Rightarrow> Returns (None, w)
      | Some srv \<Rightarrow>
          (case server_Pick srv k of
             Panics msg \<Rightarrow> Panics msg
           | Diverges \<Rightarrow> Diverges
           | Returns (fetcher, ok) \<Rightarrow>
               if ok then
                 (case Fetch fetcher (name g) k w of
                    Panics msg \<Rightarrow> Panics msg
                  | Diverges \<Rightarrow> Diverges
                  | Returns ((bs, e), w') \<Rightarrow>
                      if e = None then Returns (Some (ByteView bs), w')
                      else Returns (None, w'))
               else Returns (None, w)))"

definition load_fn ::
  "'w Fetch \<Rightarrow> 'w Group \<Rightarrow> string \<Rightarrow> Cache \<times> 'w
     \<Rightarrow> ((ByteView option \<times> error option) \<times> (Cache \<times> 'w)) outcome" where
  "load_fn Fetch g k s =
     (case s of (c, w) \<Rightarrow>
        (case peerFetch Fetch g k w of
           Panics msg \<Rightarrow> Panics msg
         | Diverges \<Rightarrow> Diverges
         | Returns (Some view, w') \<Rightarrow> Returns ((Some view, None), (c, w'))
         | Returns (None, w') \<Rightarrow>
             (case getLocally g k (c, w') of
                Panics msg \<Rightarrow> Panics msg
              | Diverges \<Rightarrow> Diverges
              | Returns ((v, e), s') \<Rightarrow> Returns ((Some v, e), s'))))"

text \<open>
  \<^verbatim>\<open>Group.load\<close>: the result of \<^verbatim>\<open>Fly\<close> is returned as a \<^verbatim>\<open>ByteView\<close> when the error is
  nil; otherwise the named results are returned, an empty \<^verbatim>\<open>ByteView\<close> and the error. The
  group after the call has the cache and the table the call left.
\<close>

definition load ::
  "'w Fetch \<Rightarrow> 'w Group \<Rightarrow> string \<Rightarrow> 'w
     \<Rightarrow> ((ByteView \<times> error option) \<times> 'w Group \<times> 'w) outcome" where
  "load Fetch g k w =
     (case Fly (flight g) k (load_fn Fetch g k) (cache g, w) of
        Panics msg \<Rightarrow> Panics msg
      | Diverges \<Rightarrow> Diverges
      | Returns ((view, e), f', (c', w')) \<Rightarrow>
          (let g' = g\<lparr>cache := c', flight := f'\<rparr> in
           if e = None
           then (case view of
                   None \<Rightarrow> Panics ''interface conversion: interface {} is nil, not gocache.ByteView''
                 | Some v \<Rightarrow> Returns ((v, None), g', w'))
           else Returns ((ByteView [], e), g', w')))"

text \<open>\<^verbatim>\<open>Group.Get\<close>.\<close>

definition Group_Get ::
  "'w Fetch \<Rightarrow> 'w Group \<Rightarrow> string \<Rightarrow> 'w
     \<Rightarrow> ((ByteView \<times> error option) \<times> 'w Group \<times> 'w) outcome" where
  "Group_Get Fetch g k w =
     (if k = '''' then Returns ((ByteView [], Some (Errorf ''key is required'')), g, w)
      else (case cache_get (cache g) k of
              ((v, ok), c') \<Rightarrow>
                if ok then Returns ((v, None), g\<lparr>cache := c'\<rparr>, w)
                else load Fetch (g\<lparr>cache := c'\<rparr>) k w))"


section \<open>Example instances\<close>

text \<open>
  A small hash function, a node with one peer, a loader that knows the key "Tom", a
  remote fetch that fails while the world's log is empty and succeeds afterwards, each
  logging its call, and a group built from them. The world is the log of calls.
\<close>

definition toyhash :: HashFunc where
  "toyhash bs = of_nat (sum_list (map of_char bs))"

definition ex_node :: server where
  "ex_node = \<lparr>addr = ''10.0.0.1:6324'', status = False, consHash = None, clients = Map.empty\<rparr>"

definition ex_server :: server where
  "ex_server = ex_node
     \<lparr>consHash :=
        Some (Register (consistenthash_New toyhash defaultReplicas None) [''10.0.0.2:6324'']),
      clients := [''10.0.0.2:6324'' \<mapsto> NewClient ''gocache/10.0.0.2:6324'']\<rparr>"

definition ex_retriever :: "string list Retriever" where
  "ex_retriever k w =
     (if k = ''Tom'' then ((''560'', None), w @ [''retrieve '' @ k])
      else (([], Some (Errorf (k @ '' not exist''))), w @ [''retrieve '' @ k]))"

definition ex_Fetch :: "string list Fetch" where
  "ex_Fetch cl grp k w =
     (case cl of
        None \<Rightarrow> Panics ''invalid memory address or nil pointer dereference''
      | Some c \<Rightarrow>
          if w = []
          then Returns (([], Some (Errorf ''peer down'')), w @ [''fetch '' @ grp @ ''/'' @ k])
          else Returns ((''remote'', None), w @ [''fetch '' @ grp @ ''/'' @ k]))"

definition ex_group :: "string list Group" where
  "ex_group = \<lparr>name = ''scores'', cache = newCache 1024, retriever = ex_retriever,
                server = Some ex_server, flight = None\<rparr>"

definition ex_counter :: "nat \<Rightarrow> ((nat option \<times> error option) \<times> nat) outcome" where
  "ex_counter n = Returns ((Some n, None), n + 1)"


section \<open>Properties of the LRU\<close>

lemma Cache_Remove_empty: "doublyLinkedList c = [] \<Longrightarrow> Cache_Remove c = c"
  by (simp add: Cache_Remove_def)

lemma evict_not_stuck:
  assumes "evict kvSize c = Some c'"
  shows "\<not> stuck kvSize c"
proof (rule evict.raw_induct[OF _ assms])
  fix ev k c0 r
  assume IH: "\<And>k c r. ev k c = Some r \<Longrightarrow> \<not> stuck k c"
    and step: "(if capacity c0 \<noteq> 0 \<and> capacity c0 < k + length_used c0
                then ev k (Cache_Remove c0) else Some c0) = Some r"
  show "\<not> stuck k c0"
  proof
    assume s: "stuck k c0"
    then have "Cache_Remove c0 = c0"
      by (simp add: Cache_Remove_empty stuck_def)
    with s step have "ev k c0 = Some r"
      by (simp add: stuck_def)
    from IH[OF this] s show False by simp
  qed
qed

lemma evict_stuck: "stuck kvSize c \<Longrightarrow> evict kvSize c = None"
  using evict_not_stuck[of kvSize c] by (cases "evict kvSize c") auto

text \<open>
  Where the tracked size is the size of the entries, and the new entry fits the capacity
  or the capacity is 0, the loop of \<^verbatim>\<open>Add\<close> ends, and so does \<^verbatim>\<open>Add\<close>. And an \<^verbatim>\<open>Add\<close>
  of a key that is not in the cache leaves the tracked size within a nonzero capacity.
\<close>

lemma entries_size_Remove:
  "doublyLinkedList c \<noteq> [] \<Longrightarrow> length_used c = entries_size c \<Longrightarrow>
     length_used (Cache_Remove c) = entries_size (Cache_Remove c)"
proof -
  assume ne: "doublyLinkedList c \<noteq> []" and acc: "length_used c = entries_size c"
  then obtain ys y where l: "doublyLinkedList c = ys @ [y]"
    by (metis rev_exhaust)
  then show ?thesis using acc
    by (simp add: Cache_Remove_def entries_size_def)
qed

lemma length_Remove:
  "doublyLinkedList c \<noteq> [] \<Longrightarrow>
     length (doublyLinkedList (Cache_Remove c)) < length (doublyLinkedList c)"
  by (cases "doublyLinkedList c" rule: rev_cases) (simp_all add: Cache_Remove_def)

lemma capacity_Remove: "capacity (Cache_Remove c) = capacity c"
  by (simp add: Cache_Remove_def split: list.splits)

lemma evict_returns:
  "length_used c = entries_size c \<Longrightarrow> capacity c = 0 \<or> kvSize \<le> capacity c \<Longrightarrow>
     \<exists>c'. evict kvSize c = Some c'"
proof (induction "length (doublyLinkedList c)" arbitrary: c rule: less_induct)
  case less
  show ?case
  proof (cases "capacity c \<noteq> 0 \<and> kvSize + length_used c > capacity c")
    case False
    then show ?thesis by (auto simp: evict.simps[of kvSize c])
  next
    case True
    have ne: "doublyLinkedList c \<noteq> []"
    proof
      assume "doublyLinkedList c = []"
      then have "entries_size c = 0" by (simp add: entries_size_def)
      with less.prems True show False by simp
    qed
    have "\<exists>c'. evict kvSize (Cache_Remove c) = Some c'"
    proof (rule less.hyps)
      show "length (doublyLinkedList (Cache_Remove c)) < length (doublyLinkedList c)"
        using ne by (rule length_Remove)
      show "length_used (Cache_Remove c) = entries_size (Cache_Remove c)"
        using ne less.prems(1) by (rule entries_size_Remove)
      show "capacity (Cache_Remove c) = 0 \<or> kvSize \<le> capacity (Cache_Remove c)"
        using less.prems(2) by (simp add: capacity_Remove)
    qed
    with True show ?thesis by (simp add: evict.simps[of kvSize c])
  qed
qed

lemma Cache_Add_returns:
  assumes "length_used c = entries_size c"
    and "capacity c = 0 \<or> int (length k) + Len v \<le> capacity c"
  shows "\<exists>c'. Cache_Add c k v = Some c'"
proof -
  from evict_returns[OF assms] obtain c1 where "evict (int (length k) + Len v) c = Some c1"
    by blast
  then show ?thesis
    by (cases "hashmap c1 k") (simp_all add: Cache_Add_def Let_def)
qed

lemma evict_result:
  assumes "evict kvSize c = Some c'"
  shows "capacity c' = capacity c
     \<and> (capacity c' = 0 \<or> kvSize + length_used c' \<le> capacity c')
     \<and> (hashmap c k = None \<longrightarrow> hashmap c' k = None)"
proof (rule evict.raw_induct[OF _ assms])
  fix ev kv c0 r
  assume IH: "\<And>kv c r. ev kv c = Some r \<Longrightarrow>
       capacity r = capacity c \<and> (capacity r = 0 \<or> kv + length_used r \<le> capacity r)
       \<and> (hashmap c k = None \<longrightarrow> hashmap r k = None)"
    and step: "(if capacity c0 \<noteq> 0 \<and> capacity c0 < kv + length_used c0
                then ev kv (Cache_Remove c0) else Some c0) = Some r"
  show "capacity r = capacity c0 \<and> (capacity r = 0 \<or> kv + length_used r \<le> capacity r)
       \<and> (hashmap c0 k = None \<longrightarrow> hashmap r k = None)"
  proof (cases "capacity c0 \<noteq> 0 \<and> capacity c0 < kv + length_used c0")
    case False
    with step have "r = c0" by simp
    with False show ?thesis by auto
  next
    case True
    with step have "ev kv (Cache_Remove c0) = Some r" by simp
    note I = IH[OF this]
    have "hashmap c0 k = None \<Longrightarrow> hashmap (Cache_Remove c0) k = None"
      by (cases "doublyLinkedList c0" rule: rev_cases)
         (auto simp: hashmap_def Cache_Remove_def find_None_iff)
    with I show ?thesis by (auto simp: capacity_Remove)
  qed
qed

lemma Cache_Add_fresh_within_capacity:
  assumes "Cache_Add c k v = Some c'" and "hashmap c k = None" and "capacity c \<noteq> 0"
  shows "length_used c' \<le> capacity c'"
proof -
  from assms(1) obtain c1 where ev: "evict (int (length k) + Len v) c = Some c1"
    by (auto simp: Cache_Add_def Let_def split: option.splits)
  note R = evict_result[OF ev, of k]
  with assms(2) have "hashmap c1 k = None" by blast
  with assms(1) ev have "c' = c1\<lparr>doublyLinkedList := \<lparr>entry_key = k, entry_value = v\<rparr> # doublyLinkedList c1,
        length_used := length_used c1 + (int (length k) + Len v)\<rparr>"
    by (simp add: Cache_Add_def Let_def)
  with R assms(3) show ?thesis by auto
qed

text \<open>
  Claim C1 (capacity invariant of the LRU). After each \<^verbatim>\<open>Add\<close> on a cache of capacity
  greater than 0 the tracked size should be at most the capacity. The update branch of
  \<^verbatim>\<open>Add\<close> adds the old value's length minus the new one's, so it does not hold:
  with capacity 10, adding key "a" with a 5-byte value and then key "a" with an empty value
  leaves the tracked size at 11; and adding "a" with an empty value, "a" with an 8-byte
  value and "b" with an 8-byte value leaves entries of 18 bytes in the cache while the
  tracked size is 2.
\<close>

theorem Cache_Add_update_breaks_capacity:
  "(\<exists>c1 c2. Cache_Add (lru_New 10 None) ''a'' (ByteView ''hello'') = Some c1
       \<and> Cache_Add c1 ''a'' (ByteView '''') = Some c2
       \<and> capacity c2 = 10 \<and> length_used c2 = 11)
   \<and> (\<exists>c1 c2 c3. Cache_Add (lru_New 10 None) ''a'' (ByteView '''') = Some c1
       \<and> Cache_Add c1 ''a'' (ByteView ''12345678'') = Some c2
       \<and> Cache_Add c2 ''b'' (ByteView ''12345678'') = Some c3
       \<and> capacity c3 = 10 \<and> length_used c3 = 2 \<and> entries_size c3 = 18)"
  by (simp add: Cache_Add_def Len_def lru_New_def evict.simps hashmap_def entries_size_def)

text \<open>
  Claim C2 (every \<^verbatim>\<open>Add\<close> returns). It does not when the new entry alone exceeds a
  nonzero capacity: the loop of \<^verbatim>\<open>Add\<close> empties the list and then keeps calling
  \<^verbatim>\<open>Remove\<close> on the empty list, which changes nothing. With capacity 5, adding the 6-byte
  key "abcdef" with an empty value to the empty cache never returns.
\<close>

theorem Cache_Add_oversized_never_returns:
  "Cache_Add (lru_New 5 None) ''abcdef'' (ByteView '''') = None"
proof -
  have "stuck 6 (lru_New 5 None)"
    by (simp add: stuck_def lru_New_def)
  then have "evict 6 (lru_New 5 None) = None"
    by (rule evict_stuck)
  then show ?thesis
    by (simp add: Cache_Add_def Len_def)
qed


section \<open>Properties of the ring\<close>

text \<open>
  The binary search, run on a predicate that stays true once it is true below \<open>n\<close>, with
  everything below \<open>i\<close> false and everything from \<open>j\<close> on true, returns the first index at
  which the predicate holds, or \<open>j\<close>.
\<close>

lemma Search_loop_correct:
  "(\<forall>a c. a \<le> c \<and> c < n \<and> f a \<longrightarrow> f c) \<Longrightarrow> i \<le> j \<Longrightarrow> j \<le> n
     \<Longrightarrow> (\<forall>k<i. \<not> f k) \<Longrightarrow> (\<forall>k. j \<le> k \<and> k < n \<longrightarrow> f k) \<Longrightarrow>
     i \<le> Search_loop f i j \<and> Search_loop f i j \<le> j
     \<and> (\<forall>k<Search_loop f i j. \<not> f k) \<and> (\<forall>k. Search_loop f i j \<le> k \<and> k < n \<longrightarrow> f k)"
proof (induction f i j rule: Search_loop.induct)
  case (1 f i j)
  note mono = "1.prems"(1)
  show ?case
  proof (cases "i < j")
    case False
    then have "Search_loop f i j = i" by (simp add: Search_loop.simps[of f i j])
    moreover have "i = j" using False "1.prems"(2) by simp
    ultimately show ?thesis using "1.prems"(4,5) by simp
  next
    case True
    define h where "h = (i + j) div 2"
    have hb: "i \<le> h" "h < j" using True by (auto simp: h_def)
    have hn: "h < n" using hb "1.prems"(3) by simp
    show ?thesis
    proof (cases "f h")
      case fh: True
      define r where "r = Search_loop f i h"
      have eq: "Search_loop f i j = r"
        using True fh by (simp add: Search_loop.simps[of f i j] h_def Let_def r_def)
      have up: "\<forall>k. h \<le> k \<and> k < n \<longrightarrow> f k" using fh mono by blast
      have nn: "\<not> \<not> f h" using fh by blast
      have hn': "h \<le> n" using hn by simp
      note IH = "1.IH"(2)[OF True h_def nn mono hb(1) hn' "1.prems"(4) up, folded r_def]
      from IH have "r \<le> h" by blast
      with hb(2) have "r \<le> j" by linarith
      with IH show ?thesis unfolding eq by blast
    next
      case nfh: False
      define r where "r = Search_loop f (h + 1) j"
      have eq: "Search_loop f i j = r"
        using True nfh by (simp add: Search_loop.simps[of f i j] h_def Let_def r_def)
      have low: "\<forall>k<h + 1. \<not> f k"
      proof (intro allI impI)
        fix k assume "k < h + 1"
        then have "k \<le> h" by simp
        with mono hn nfh show "\<not> f k" by blast
      qed
      have hj: "h + 1 \<le> j" using hb by simp
      note IH = "1.IH"(1)[OF True h_def nfh mono hj "1.prems"(3) low "1.prems"(5), folded r_def]
      from IH have "h + 1 \<le> r" by blast
      with hb(1) have "i \<le> r" by linarith
      with IH show ?thesis unfolding eq by blast
    qed
  qed
qed

lemma sorted_hd_Min: "sorted xs \<Longrightarrow> xs \<noteq> [] \<Longrightarrow> hd xs = Min (set xs)"
proof (cases xs)
  case Nil
  assume "xs \<noteq> []"
  with Nil show ?thesis by simp
next
  case (Cons x ys)
  assume "sorted xs"
  with Cons have le: "\<forall>y\<in>set ys. x \<le> y" by simp
  have "Min (set (x # ys)) = x"
  proof (rule Min_eqI)
    show "finite (set (x # ys))" by simp
    show "\<And>y. y \<in> set (x # ys) \<Longrightarrow> x \<le> y" using le by auto
    show "x \<in> set (x # ys)" by simp
  qed
  with Cons show ?thesis by simp
qed

lemma Search_sorted:
  fixes xs :: "int list"
  assumes "sorted xs"
  shows "Search (length xs) (\<lambda>i. xs ! i \<ge> h) \<le> length xs
     \<and> (\<forall>k<Search (length xs) (\<lambda>i. xs ! i \<ge> h). \<not> h \<le> xs ! k)
     \<and> (\<forall>k. Search (length xs) (\<lambda>i. xs ! i \<ge> h) \<le> k \<and> k < length xs \<longrightarrow> h \<le> xs ! k)"
proof -
  have mono: "\<forall>a c. a \<le> c \<and> c < length xs \<and> h \<le> xs ! a \<longrightarrow> h \<le> xs ! c"
  proof (intro allI impI)
    fix a c assume ac: "a \<le> c \<and> c < length xs \<and> h \<le> xs ! a"
    with assms have "xs ! a \<le> xs ! c" by (simp add: sorted_nth_mono)
    with ac show "h \<le> xs ! c" by simp
  qed
  have p4: "\<forall>k. length xs \<le> k \<and> k < length xs \<longrightarrow> h \<le> xs ! k" by auto
  have p3: "\<forall>k<(0::nat). \<not> h \<le> xs ! k" by simp
  define r where "r = Search_loop (\<lambda>i. xs ! i \<ge> h) 0 (length xs)"
  have le: "(0::nat) \<le> length xs" "length xs \<le> length xs" by simp_all
  note R = Search_loop_correct[where f = "\<lambda>i. xs ! i \<ge> h" and n = "length xs" and i = 0 and j = "length xs",
        OF mono le p3 p4, folded r_def]
  have "Search (length xs) (\<lambda>i. xs ! i \<ge> h) = r" by (simp add: Search_def r_def)
  with R show ?thesis by blast
qed

lemma sorted_Register: "sorted (ring (Register c peersName))"
  by (simp add: Register_def Let_def)

text \<open>
  Claim C6 (ring lookup). A ring is sorted after every \<^verbatim>\<open>Register\<close>, and empty before the
  first. On a sorted ring, \<^verbatim>\<open>Get\<close> returns the empty string when the ring has no entries;
  otherwise the peer that \<open>hashMap\<close> records for the first entry of the sorted ring that is
  at least the key's hash; and, when the key's hash exceeds every entry, the peer recorded
  for the smallest entry.
\<close>

theorem Consistentency_Get_locates:
  assumes "sorted (ring c)"
  shows "Consistentency_Get c k =
     (if ring c = [] then ''''
      else case find (\<lambda>x. uint (hash c k) \<le> x) (ring c) of
             Some x \<Rightarrow> hashMap_lookup c x
           | None \<Rightarrow> hashMap_lookup c (Min (set (ring c))))"
proof (cases "ring c = []")
  case True
  then show ?thesis by (simp add: Consistentency_Get_def)
next
  case False
  define xs where "xs = ring c"
  define h where "h = uint (hash c k)"
  define r where "r = Search (length xs) (\<lambda>i. xs ! i \<ge> h)"
  have ne: "xs \<noteq> []" and n0: "0 < length xs" using False by (auto simp: xs_def)
  have srt: "sorted xs" using assms by (simp add: xs_def)
  note S0 = Search_sorted[OF srt, of h, folded r_def]
  have S: "r \<le> length xs" "\<forall>k<r. \<not> h \<le> xs ! k" "\<forall>k. r \<le> k \<and> k < length xs \<longrightarrow> h \<le> xs ! k"
    using S0 by blast+
  have get: "Consistentency_Get c k = hashMap_lookup c (xs ! (r mod length xs))"
    using False by (simp add: Consistentency_Get_def Let_def r_def xs_def h_def)
  show ?thesis
  proof (cases "r < length xs")
    case True
    then have "h \<le> xs ! r" using S(3) by blast
    with True S(2) have "find (\<lambda>x. h \<le> x) xs = Some (xs ! r)"
      unfolding find_Some_iff by blast
    with get True False show ?thesis by (simp add: xs_def h_def)
  next
    case F: False
    then have rn: "r = length xs" using S(1) by simp
    have "\<not> (\<exists>x. x \<in> set xs \<and> h \<le> x)"
      using S(2) unfolding rn in_set_conv_nth by blast
    then have "find (\<lambda>x. h \<le> x) xs = None" unfolding find_None_iff .
    moreover have "xs ! (r mod length xs) = Min (set xs)"
      using ne sorted_hd_Min[OF srt ne] by (simp add: hd_conv_nth rn)
    ultimately show ?thesis using get False by (simp add: xs_def h_def)
  qed
qed

theorem Consistentency_Get_locates_witness:
  "sorted (ring (Register (consistenthash_New toyhash 2 None) [''a'', ''c'']))
   \<and> Consistentency_Get (Register (consistenthash_New toyhash 2 None) [''a'', ''c'']) ''1c'' = ''c''
   \<and> Consistentency_Get (Register (consistenthash_New toyhash 2 None) [''a'', ''c'']) ''zz'' = ''a''"
proof -
  let ?c = "Register (consistenthash_New toyhash 2 None) [''a'', ''c'']"
  have s: "sorted (ring ?c)" by (rule sorted_Register)
  have "Consistentency_Get ?c ''1c'' = ''c''"
    unfolding Consistentency_Get_locates[OF s] by code_simp
  moreover have "Consistentency_Get ?c ''zz'' = ''a''"
    unfolding Consistentency_Get_locates[OF s] by code_simp
  ultimately show ?thesis using s by simp
qed


section \<open>Properties of the coalescer\<close>

lemma table_restore: "m k = None \<Longrightarrow> m(k := None) = m"
  by (rule fun_upd_idem)

lemma Fly_fresh:
  assumes "table f k = None" and "fn s = Returns ((v, e), s')"
  shows "Fly f k fn s = Returns ((v, e), Some (table f), s')"
  using assms by (simp add: Fly_def Let_def table_restore)

lemma Fly_fresh_Diverges:
  assumes "table f k = None" and "fn s = Diverges"
  shows "Fly f k fn s = Diverges"
  using assms by (simp add: Fly_def Let_def)

text \<open>
  Claim C5 (a call that finds no record). When the table has no record for the key and
  \<open>fn\<close> returns, \<^verbatim>\<open>Fly\<close> returns the pair \<open>fn\<close> returned and leaves the state that one run
  of \<open>fn\<close> on the state before leaves; the table afterwards has no record for the key; and
  a following \<^verbatim>\<open>Fly\<close> for the same key runs the function it is given, on the state the
  first call left, and returns that function's result.
\<close>

theorem Fly_runs_once_and_forgets:
  assumes "table f k = None" and "fn s = Returns ((v, e), s')"
  shows "Fly f k fn s = Returns ((v, e), Some (table f), s')
     \<and> table (Some (table f)) k = None
     \<and> (\<forall>fn2 r2 s2. fn2 s' = Returns (r2, s2) \<longrightarrow>
            Fly (Some (table f)) k fn2 s' = Returns (r2, Some (table f), s2))"
proof -
  have t: "table (Some (table f)) = table f" by (simp add: table_def)
  have 1: "Fly f k fn s = Returns ((v, e), Some (table f), s')"
    using assms by (rule Fly_fresh)
  have 2: "table (Some (table f)) k = None" using assms(1) by (simp add: t)
  have 3: "\<forall>fn2 r2 s2. fn2 s' = Returns (r2, s2) \<longrightarrow>
            Fly (Some (table f)) k fn2 s' = Returns (r2, Some (table f), s2)"
  proof (intro allI impI)
    fix fn2 :: "'b \<Rightarrow> (('a option \<times> error option) \<times> 'b) outcome" and r2 s2
    assume a: "fn2 s' = Returns (r2, s2)"
    obtain v2 e2 where r2: "r2 = (v2, e2)" by (cases r2)
    from Fly_fresh[where fn = fn2 and s = s' and v = v2 and e = e2 and s' = s2, OF 2] a r2 t
    show "Fly (Some (table f)) k fn2 s' = Returns (r2, Some (table f), s2)" by simp
  qed
  from 1 2 3 show ?thesis by blast
qed

theorem Fly_runs_once_and_forgets_witness:
  "Fly None ''Tom'' ex_counter 0 = Returns ((Some 0, None), Some Map.empty, 1)
   \<and> table (Some Map.empty) ''Tom'' = (None :: nat packet option)
   \<and> Fly (Some Map.empty) ''Tom'' ex_counter 1 = Returns ((Some 1, None), Some Map.empty, 2)"
proof -
  have h1: "table (None :: nat Flight) ''Tom'' = None" by (simp add: table_def)
  have h2: "ex_counter 0 = Returns ((Some 0, None), 1)" by (simp add: ex_counter_def)
  have t: "table (None :: nat Flight) = Map.empty" by (simp add: table_def)
  have n: "ex_counter 1 = Returns ((Some 1, None), 2)" by (simp add: ex_counter_def)
  note T = Fly_runs_once_and_forgets[where fn = ex_counter and s = 0, OF h1 h2]
  from T[THEN conjunct2, THEN conjunct2, rule_format, where ?fn2.0 = ex_counter, OF n] T[THEN conjunct1] T[THEN conjunct2, THEN conjunct1]
  show ?thesis by (simp only: t)
qed


section \<open>Properties of the picker\<close>

lemma ex_server_SetPeers:
  "SetPeers toyhash (\<lambda>a. True) ex_node [''10.0.0.2:6324''] = Returns ex_server"
  by (simp add: SetPeers_def ex_server_def ex_node_def)

text \<open>
  Claim C4 (what \<^verbatim>\<open>Pick\<close> returns when no peers are configured). \<^verbatim>\<open>Pick\<close> should then
  return \<^verbatim>\<open>false\<close>. It does not: after \<^verbatim>\<open>SetPeers\<close> with no addresses the ring is empty,
  the lookup gives the empty string, which is not the server's address, and \<^verbatim>\<open>Pick\<close>
  returns a nil client with \<^verbatim>\<open>true\<close>, for every key. On a server whose \<^verbatim>\<open>SetPeers\<close> was
  never called \<^verbatim>\<open>Pick\<close> panics.
\<close>

theorem Pick_without_peers_finds:
  "(\<exists>s. SetPeers ChecksumIEEE ValidPeerAddr ex_node [] = Returns s
      \<and> server_Pick s k = Returns (None, True))
   \<and> server_Pick ex_node k = Panics ''invalid memory address or nil pointer dereference''"
  by (simp add: SetPeers_def server_Pick_def GetPeer_def Consistentency_Get_def Register_def
        consistenthash_New_def ex_node_def Let_def)


section \<open>Properties of the group\<close>

lemma find_Some_holds: "find P xs = Some x \<Longrightarrow> P x"
  by (auto simp: find_Some_iff)

lemma Cache_Add_present:
  assumes "Cache_Add c k v = Some c'"
  shows "hashmap c' k = Some \<lparr>entry_key = k, entry_value = v\<rparr>"
proof -
  from assms obtain c1 where ev: "evict (int (length k) + Len v) c = Some c1"
    by (auto simp: Cache_Add_def Let_def split: option.splits)
  show ?thesis
  proof (cases "hashmap c1 k")
    case None
    with assms ev show ?thesis
      by (auto simp: Cache_Add_def Let_def hashmap_def)
  next
    case (Some oldEntry)
    then have "entry_key oldEntry = k"
      unfolding hashmap_def by (rule find_Some_holds)
    with assms ev Some show ?thesis
      by (auto simp: Cache_Add_def Let_def hashmap_def)
  qed
qed

lemma cache_get_miss: "hashmap c k = None \<Longrightarrow> cache_get c k = ((ByteView [], False), c)"
  by (simp add: cache_get_def Cache_Get_def)

lemma Group_Get_miss:
  "k \<noteq> '''' \<Longrightarrow> hashmap (cache g) k = None \<Longrightarrow> Group_Get Fetch g k w = load Fetch g k w"
  by (simp add: Group_Get_def cache_get_miss)

lemma load_local:
  assumes "table (flight g) k = None"
    and "peerFetch Fetch g k w = Returns (None, w1)"
  shows "load Fetch g k w =
     (case retriever g k w1 of
        ((bs, Some e), w2) \<Rightarrow> Returns ((ByteView [], Some e), g\<lparr>flight := Some (table (flight g))\<rparr>, w2)
      | ((bs, None), w2) \<Rightarrow>
          (case Cache_Add (cache g) k (ByteView bs) of
             None \<Rightarrow> Diverges
           | Some c' \<Rightarrow> Returns ((ByteView bs, None),
                                 g\<lparr>cache := c', flight := Some (table (flight g))\<rparr>, w2)))"
proof -
  obtain bs eo w2 where r: "retriever g k w1 = ((bs, eo), w2)"
    by (metis prod.exhaust)
  show ?thesis
  proof (cases eo)
    case (Some e)
    have "load_fn Fetch g k (cache g, w) = Returns ((Some (ByteView []), Some e), (cache g, w2))"
      using assms(2) r Some by (simp add: load_fn_def getLocally_def)
    from Fly_fresh[where fn = "load_fn Fetch g k" and s = "(cache g, w)", OF assms(1) this] r Some show ?thesis
      by (simp add: load_def)
  next
    case None
    show ?thesis
    proof (cases "Cache_Add (cache g) k (ByteView bs)")
      case N: None
      have "load_fn Fetch g k (cache g, w) = Diverges"
        using assms(2) r None N
        by (simp add: load_fn_def getLocally_def populateCache_def cache_add_def cloneBytes_def)
      from Fly_fresh_Diverges[where fn = "load_fn Fetch g k" and s = "(cache g, w)", OF assms(1) this] r None N show ?thesis
        by (simp add: load_def)
    next
      case (Some c')
      have "load_fn Fetch g k (cache g, w) = Returns ((Some (ByteView bs), None), (c', w2))"
        using assms(2) r None Some
        by (simp add: load_fn_def getLocally_def populateCache_def cache_add_def cloneBytes_def)
      from Fly_fresh[where fn = "load_fn Fetch g k" and s = "(cache g, w)", OF assms(1) this] r None Some show ?thesis
        by (simp add: load_def)
    qed
  qed
qed

lemma load_remote:
  assumes "table (flight g) k = None"
    and "peerFetch Fetch g k w = Returns (Some view, w1)"
  shows "load Fetch g k w = Returns ((view, None), g\<lparr>flight := Some (table (flight g))\<rparr>, w1)"
proof -
  have "load_fn Fetch g k (cache g, w) = Returns ((Some view, None), (cache g, w1))"
    using assms(2) by (simp add: load_fn_def)
  from Fly_fresh[where fn = "load_fn Fetch g k" and s = "(cache g, w)", OF assms(1) this] show ?thesis
    by (simp add: load_def)
qed

lemma ex_group_built:
  "\<exists>g0 groups. NewGroup ''scores'' 1024 (Some ex_retriever) Map.empty = Returns (g0, groups)
     \<and> RegisterSvr g0 ex_server = Returns ex_group"
  by (simp add: NewGroup_def RegisterSvr_def ex_group_def Let_def)

lemma ex_Pick_Tom:
  "server_Pick ex_server ''Tom'' = Returns (Some (NewClient ''gocache/10.0.0.2:6324''), True)"
  by code_simp

lemma ex_Pick_Jack:
  "server_Pick ex_server ''Jack'' = Returns (Some (NewClient ''gocache/10.0.0.2:6324''), True)"
  by code_simp

text \<open>
  Remote first, then the loader. Take a group with a server attached, a key that is not
  empty, not in the cache and without a pending record, for which the server picks a
  fetcher. In a world where the fetch fails and the loader then returns bytes, \<^verbatim>\<open>Get\<close>
  runs the loader after the fetch and adds the loaded value to the cache: it never returns
  if that \<^verbatim>\<open>Add\<close> never returns, and otherwise returns the loaded value, with the group's
  cache the one \<^verbatim>\<open>Add\<close> produced, which holds the value under the key; and it does
  return whenever the cache's tracked size is the size of its entries and the new entry
  fits the capacity or the capacity is 0. In a world where the fetch succeeds, \<^verbatim>\<open>Get\<close>
  returns the fetched bytes, the cache is as it was, and the world is the one the fetch
  left: the loader was not run.
\<close>

lemma Group_Get_peer_then_local:
  assumes "k \<noteq> ''''" and "hashmap (cache g) k = None" and "table (flight g) k = None"
    and "server g = Some srv" and "server_Pick srv k = Returns (fetcher, True)"
  shows "(\<forall>w bs0 e w1 bs w2.
            Fetch fetcher (name g) k w = Returns ((bs0, Some e), w1)
            \<and> retriever g k w1 = ((bs, None), w2) \<longrightarrow>
              (Cache_Add (cache g) k (ByteView bs) = None \<longrightarrow> Group_Get Fetch g k w = Diverges)
              \<and> (\<forall>c'. Cache_Add (cache g) k (ByteView bs) = Some c' \<longrightarrow>
                     Group_Get Fetch g k w =
                       Returns ((ByteView bs, None),
                                g\<lparr>cache := c', flight := Some (table (flight g))\<rparr>, w2)
                     \<and> hashmap c' k = Some \<lparr>entry_key = k, entry_value = ByteView bs\<rparr>)
              \<and> (length_used (cache g) = entries_size (cache g)
                   \<and> (capacity (cache g) = 0
                        \<or> int (length k) + Len (ByteView bs) \<le> capacity (cache g)) \<longrightarrow>
                   (\<exists>c'. Group_Get Fetch g k w =
                       Returns ((ByteView bs, None),
                                g\<lparr>cache := c', flight := Some (table (flight g))\<rparr>, w2)
                     \<and> hashmap c' k = Some \<lparr>entry_key = k, entry_value = ByteView bs\<rparr>)))
       \<and> (\<forall>w bs w1.
            Fetch fetcher (name g) k w = Returns ((bs, None), w1) \<longrightarrow>
              Group_Get Fetch g k w =
                Returns ((ByteView bs, None), g\<lparr>flight := Some (table (flight g))\<rparr>, w1))"
proof (intro conjI allI impI)
  fix w bs0 e w1 bs w2
  assume a: "Fetch fetcher (name g) k w = Returns ((bs0, Some e), w1)
            \<and> retriever g k w1 = ((bs, None), w2)"
  then have pf: "peerFetch Fetch g k w = Returns (None, w1)"
    using assms(4,5) by (simp add: peerFetch_def)
  note L = load_local[OF assms(3) pf]
  {
    assume "Cache_Add (cache g) k (ByteView bs) = None"
    with L a show "Group_Get Fetch g k w = Diverges"
      by (simp add: Group_Get_miss[OF assms(1,2)])
  }
  {
    fix c' assume c: "Cache_Add (cache g) k (ByteView bs) = Some c'"
    with L a show "Group_Get Fetch g k w =
       Returns ((ByteView bs, None), g\<lparr>cache := c', flight := Some (table (flight g))\<rparr>, w2)"
      by (simp add: Group_Get_miss[OF assms(1,2)])
    from c show "hashmap c' k = Some \<lparr>entry_key = k, entry_value = ByteView bs\<rparr>"
      by (rule Cache_Add_present)
  }
  {
    assume fits: "length_used (cache g) = entries_size (cache g)
        \<and> (capacity (cache g) = 0 \<or> int (length k) + Len (ByteView bs) \<le> capacity (cache g))"
    then obtain c' where c: "Cache_Add (cache g) k (ByteView bs) = Some c'"
      using Cache_Add_returns[of "cache g" k "ByteView bs"] by blast
    with L a have "Group_Get Fetch g k w =
       Returns ((ByteView bs, None), g\<lparr>cache := c', flight := Some (table (flight g))\<rparr>, w2)"
      by (simp add: Group_Get_miss[OF assms(1,2)])
    moreover from c have "hashmap c' k = Some \<lparr>entry_key = k, entry_value = ByteView bs\<rparr>"
      by (rule Cache_Add_present)
    ultimately show "\<exists>c'. Group_Get Fetch g k w =
         Returns ((ByteView bs, None), g\<lparr>cache := c', flight := Some (table (flight g))\<rparr>, w2)
       \<and> hashmap c' k = Some \<lparr>entry_key = k, entry_value = ByteView bs\<rparr>"
      by blast
  }
next
  fix w bs w1
  assume a: "Fetch fetcher (name g) k w = Returns ((bs, None), w1)"
  then have pf: "peerFetch Fetch g k w = Returns (Some (ByteView bs), w1)"
    using assms(4,5) by (simp add: peerFetch_def)
  from load_remote[OF assms(3) pf]
  show "Group_Get Fetch g k w =
          Returns ((ByteView bs, None), g\<lparr>flight := Some (table (flight g))\<rparr>, w1)"
    by (simp add: Group_Get_miss[OF assms(1,2)])
qed

lemma Group_Get_peer_then_local_example:
  "Group_Get ex_Fetch ex_group ''Tom'' [] =
     Returns ((ByteView ''560'', None),
              ex_group\<lparr>cache := \<lparr>capacity = 1024, length_used = 6,
                                  doublyLinkedList = [\<lparr>entry_key = ''Tom'', entry_value = ByteView ''560''\<rparr>],
                                  callback = None\<rparr>,
                        flight := Some Map.empty\<rparr>,
              [''fetch scores/Tom'', ''retrieve Tom''])
   \<and> hashmap \<lparr>capacity = 1024, length_used = 6,
               doublyLinkedList = [\<lparr>entry_key = ''Tom'', entry_value = ByteView ''560''\<rparr>],
               callback = None\<rparr> ''Tom''
       = Some \<lparr>entry_key = ''Tom'', entry_value = ByteView ''560''\<rparr>
   \<and> Group_Get ex_Fetch ex_group ''Tom'' [''peer is up''] =
       Returns ((ByteView ''remote'', None), ex_group\<lparr>flight := Some Map.empty\<rparr>,
                [''peer is up'', ''fetch scores/Tom''])"
proof -
  let ?c = "\<lparr>capacity = 1024, length_used = 6,
             doublyLinkedList = [\<lparr>entry_key = ''Tom'', entry_value = ByteView ''560''\<rparr>],
             callback = None\<rparr>"
  have h1: "''Tom'' \<noteq> ''''" by simp
  have h2: "hashmap (cache ex_group) ''Tom'' = None"
    by (simp add: ex_group_def newCache_def lru_New_def hashmap_def)
  have h3: "table (flight ex_group) ''Tom'' = None"
    by (simp add: ex_group_def table_def)
  have h4: "server ex_group = Some ex_server"
    by (simp add: ex_group_def)
  note T = Group_Get_peer_then_local[OF h1 h2 h3 h4 ex_Pick_Tom, of ex_Fetch]
  have t: "table (flight ex_group) = Map.empty"
    by (simp add: ex_group_def table_def)
  have add: "Cache_Add (cache ex_group) ''Tom'' (ByteView ''560'') = Some ?c"
    by (simp add: ex_group_def newCache_def lru_New_def Cache_Add_def Len_def evict.simps hashmap_def)
  have pre: "ex_Fetch (Some (NewClient ''gocache/10.0.0.2:6324'')) (name ex_group) ''Tom'' []
               = Returns (([], Some (Errorf ''peer down'')), [''fetch scores/Tom''])
             \<and> retriever ex_group ''Tom'' [''fetch scores/Tom'']
               = ((''560'', None), [''fetch scores/Tom'', ''retrieve Tom''])"
    by (simp add: ex_Fetch_def ex_group_def ex_retriever_def)
  have up: "ex_Fetch (Some (NewClient ''gocache/10.0.0.2:6324'')) (name ex_group) ''Tom'' [''peer is up'']
               = Returns ((''remote'', None), [''peer is up'', ''fetch scores/Tom''])"
    by (simp add: ex_Fetch_def ex_group_def)
  from T[THEN conjunct1, rule_format, OF pre, THEN conjunct2, THEN conjunct1, rule_format, OF add]
  have A: "Group_Get ex_Fetch ex_group ''Tom'' [] =
       Returns ((ByteView ''560'', None), ex_group\<lparr>cache := ?c, flight := Some Map.empty\<rparr>,
                [''fetch scores/Tom'', ''retrieve Tom''])
     \<and> hashmap ?c ''Tom'' = Some \<lparr>entry_key = ''Tom'', entry_value = ByteView ''560''\<rparr>"
    by (simp only: t)
  from T[THEN conjunct2, rule_format, OF up]
  have B: "Group_Get ex_Fetch ex_group ''Tom'' [''peer is up''] =
       Returns ((ByteView ''remote'', None), ex_group\<lparr>flight := Some Map.empty\<rparr>,
                [''peer is up'', ''fetch scores/Tom''])"
    by (simp only: t)
  from A B show ?thesis by blast
qed

text \<open>
  Claim C3 (after a failed fetch the loaded value is in the cache). It is not when the
  new entry alone exceeds the capacity: the insertion is the LRU's \<^verbatim>\<open>Add\<close>, whose loop
  then never ends. For the group "scores" of capacity 5 made by \<^verbatim>\<open>NewGroup\<close>, with a
  server attached by \<^verbatim>\<open>RegisterSvr\<close> that picks a peer for the key "Tom", a fetch that
  fails and a loader that returns the 3 bytes "560", \<^verbatim>\<open>Get\<close> never returns: key and
  value take 6 bytes.
\<close>

theorem Group_Get_oversized_load_never_returns:
  "\<exists>g0 groups g.
      NewGroup ''scores'' 5 (Some ex_retriever) Map.empty = Returns (g0, groups)
      \<and> RegisterSvr g0 ex_server = Returns g
      \<and> server_Pick ex_server ''Tom''
            = Returns (Some (NewClient ''gocache/10.0.0.2:6324''), True)
      \<and> ex_Fetch (Some (NewClient ''gocache/10.0.0.2:6324'')) (name g) ''Tom'' []
            = Returns (([], Some (Errorf ''peer down'')), [''fetch scores/Tom''])
      \<and> retriever g ''Tom'' [''fetch scores/Tom'']
            = ((''560'', None), [''fetch scores/Tom'', ''retrieve Tom''])
      \<and> Group_Get ex_Fetch g ''Tom'' [] = Diverges"
proof -
  let ?g = "\<lparr>name = ''scores'', cache = newCache 5, retriever = ex_retriever,
             server = Some ex_server, flight = None\<rparr> :: string list Group"
  have built: "NewGroup ''scores'' 5 (Some ex_retriever) Map.empty
                 = Returns (?g\<lparr>server := None\<rparr>, [''scores'' \<mapsto> ?g\<lparr>server := None\<rparr>])
               \<and> RegisterSvr (?g\<lparr>server := None\<rparr>) ex_server = Returns ?g"
    by (simp add: NewGroup_def RegisterSvr_def Let_def)
  have h1: "''Tom'' \<noteq> ''''" by simp
  have h2: "hashmap (cache ?g) ''Tom'' = None"
    by (simp add: newCache_def lru_New_def hashmap_def)
  have h3: "table (flight ?g) ''Tom'' = None"
    by (simp add: table_def)
  have h4: "server ?g = Some ex_server" by simp
  have pre: "ex_Fetch (Some (NewClient ''gocache/10.0.0.2:6324'')) (name ?g) ''Tom'' []
               = Returns (([], Some (Errorf ''peer down'')), [''fetch scores/Tom''])
             \<and> retriever ?g ''Tom'' [''fetch scores/Tom'']
               = ((''560'', None), [''fetch scores/Tom'', ''retrieve Tom''])"
    by (simp add: ex_Fetch_def ex_retriever_def)
  have "stuck 6 (newCache 5)"
    by (simp add: stuck_def newCache_def lru_New_def)
  then have "evict 6 (newCache 5) = None"
    by (rule evict_stuck)
  then have none: "Cache_Add (cache ?g) ''Tom'' (ByteView ''560'') = None"
    by (simp add: Cache_Add_def Len_def)
  note T = Group_Get_peer_then_local[OF h1 h2 h3 h4 ex_Pick_Tom, of ex_Fetch]
  from T[THEN conjunct1, rule_format, OF pre, THEN conjunct1, rule_format, OF none]
  have "Group_Get ex_Fetch ?g ''Tom'' [] = Diverges" .
  with built pre ex_Pick_Tom show ?thesis by blast
qed

text \<open>
  Claim C7 (a failing loader). Take a key that is not empty, not in the cache and without
  a pending record, and let the loader be reached: no server is attached, or the server
  picks no fetcher, or the fetch fails. If the loader then returns an error, \<^verbatim>\<open>Get\<close>
  returns that error with an empty \<^verbatim>\<open>ByteView\<close>, and the group's cache is as it was.
\<close>

theorem Group_Get_loader_error:
  assumes "k \<noteq> ''''" and "hashmap (cache g) k = None" and "table (flight g) k = None"
    and "(server g = None \<and> w1 = w)
       \<or> (\<exists>srv fetcher. server g = Some srv \<and> server_Pick srv k = Returns (fetcher, False) \<and> w1 = w)
       \<or> (\<exists>srv fetcher bs0 e0. server g = Some srv \<and> server_Pick srv k = Returns (fetcher, True)
             \<and> Fetch fetcher (name g) k w = Returns ((bs0, Some e0), w1))"
    and "retriever g k w1 = ((bs, Some e), w2)"
  shows "Group_Get Fetch g k w =
           Returns ((ByteView [], Some e), g\<lparr>flight := Some (table (flight g))\<rparr>, w2)
         \<and> cache (g\<lparr>flight := Some (table (flight g))\<rparr>) = cache g"
proof -
  have pf: "peerFetch Fetch g k w = Returns (None, w1)"
    using assms(4) by (auto simp: peerFetch_def)
  from load_local[OF assms(3) pf] assms(5) show ?thesis
    by (simp add: Group_Get_miss[OF assms(1,2)])
qed

theorem Group_Get_loader_error_witness:
  "Group_Get ex_Fetch ex_group ''Jack'' [] =
     Returns ((ByteView [], Some (Errorf ''Jack not exist'')), ex_group\<lparr>flight := Some Map.empty\<rparr>,
              [''fetch scores/Jack'', ''retrieve Jack''])
   \<and> cache (ex_group\<lparr>flight := Some Map.empty\<rparr>) = cache ex_group"
proof -
  have h1: "''Jack'' \<noteq> ''''" by simp
  have h2: "hashmap (cache ex_group) ''Jack'' = None"
    by (simp add: ex_group_def newCache_def lru_New_def hashmap_def)
  have h3: "table (flight ex_group) ''Jack'' = None"
    by (simp add: ex_group_def table_def)
  have t: "table (flight ex_group) = Map.empty"
    by (simp add: ex_group_def table_def)
  have f: "ex_Fetch (Some (NewClient ''gocache/10.0.0.2:6324'')) (name ex_group) ''Jack'' []
               = Returns (([], Some (Errorf ''peer down'')), [''fetch scores/Jack''])"
    by (simp add: ex_Fetch_def ex_group_def)
  have h4: "(server ex_group = None \<and> [''fetch scores/Jack''] = [])
       \<or> (\<exists>srv fetcher. server ex_group = Some srv \<and> server_Pick srv ''Jack'' = Returns (fetcher, False)
              \<and> [''fetch scores/Jack''] = [])
       \<or> (\<exists>srv fetcher bs0 e0. server ex_group = Some srv \<and> server_Pick srv ''Jack'' = Returns (fetcher, True)
             \<and> ex_Fetch fetcher (name ex_group) ''Jack'' [] = Returns ((bs0, Some e0), [''fetch scores/Jack'']))"
    using ex_Pick_Jack f by (auto simp: ex_group_def)
  have h5: "retriever ex_group ''Jack'' [''fetch scores/Jack'']
       = (([], Some (Errorf ''Jack not exist'')), [''fetch scores/Jack'', ''retrieve Jack''])"
    by (simp add: ex_group_def ex_retriever_def)
  from Group_Get_loader_error[where Fetch = ex_Fetch and g = ex_group and w = "[]", OF h1 h2 h3 h4 h5] show ?thesis
    by (simp only: t)
qed

text \<open>
  Claim C9 (empty key). \<^verbatim>\<open>Get\<close> with the empty key returns the error "key is required";
  the group, with its cache and table, and the world are as they were, whatever the cache
  holds and whatever the server, the loader and the remote fetch would do.
\<close>

theorem Group_Get_empty_key:
  "Group_Get Fetch g '''' w = Returns ((ByteView [], Some (Errorf ''key is required'')), g, w)"
  by (simp add: Group_Get_def)

text \<open>
  Claim C10 (a second group of the same name). \<^verbatim>\<open>NewGroup\<close> with a name the directory
  already holds and a retriever that is not nil returns; the directory then maps the name
  to the new group, whose cache is new, with no server and an empty table, and maps every
  other name as before.
\<close>

theorem NewGroup_replaces:
  assumes "GetGroup groups nm = Some old"
  shows "\<exists>g groups'. NewGroup nm maxBytes (Some r) groups = Returns (g, groups')
      \<and> GetGroup groups' nm = Some g
      \<and> g = \<lparr>name = nm, cache = newCache maxBytes, retriever = r, server = None, flight = None\<rparr>
      \<and> (\<forall>n. n \<noteq> nm \<longrightarrow> GetGroup groups' n = GetGroup groups n)"
  by (simp add: NewGroup_def GetGroup_def Let_def)

theorem NewGroup_replaces_witness:
  "GetGroup [''scores'' \<mapsto> ex_group] ''scores'' = Some ex_group
   \<and> (\<exists>g groups'. NewGroup ''scores'' 2048 (Some ex_retriever) [''scores'' \<mapsto> ex_group] = Returns (g, groups')
         \<and> GetGroup groups' ''scores'' = Some g
         \<and> g = \<lparr>name = ''scores'', cache = newCache 2048, retriever = ex_retriever,
                 server = None, flight = None\<rparr>)"
proof -
  have h: "GetGroup [''scores'' \<mapsto> ex_group] ''scores'' = Some ex_group"
    by (simp add: GetGroup_def)
  from NewGroup_replaces[OF h, of 2048 ex_retriever] h show ?thesis by blast
qed

lemma DestoryGroup_with_server:
  "GetGroup groups nm = Some g \<Longrightarrow> server g = Some srv \<Longrightarrow>
     DestoryGroup nm groups = Returns (groups(nm := None), Some (Stop srv))"
  by (simp add: DestoryGroup_def)

text \<open>
  Claim C8 (destroying a group that never had a server). \<^verbatim>\<open>DestoryGroup\<close> should remove
  the entry of such a group too. It does not: for a group made by \<^verbatim>\<open>NewGroup\<close> and given
  no server, it panics at the type assertion on the nil \<^verbatim>\<open>g.server\<close> and does not reach
  the \<^verbatim>\<open>delete\<close>, so the directory keeps the entry.
\<close>

theorem DestoryGroup_without_server_panics:
  "\<exists>g groups. NewGroup ''scores'' 1024 (Some ex_retriever) Map.empty = Returns (g, groups)
      \<and> GetGroup groups ''scores'' = Some g \<and> server g = None
      \<and> DestoryGroup ''scores'' groups
          = Panics ''interface conversion: gocache.Picker is nil, not *gocache.server''"
  by (simp add: NewGroup_def GetGroup_def DestoryGroup_def Let_def)

end
